theory Spec2Isabelle
  imports Main "HOL-Library.Multiset"
begin

section \<open>Python values and their text\<close>

text \<open>
  The values that reach the logger from \<^verbatim>\<open>add\<close>: integers (unbounded, as Python's
  are) and the tuple \<^verbatim>\<open>vargs\<close>. Strings are lists of characters; a character stands for
  the code point of the same number.
\<close>

datatype pyval = PInt int | PTuple "pyval list"

datatype error = ValueError | TypeError

text \<open>The decimal digits of a natural number, most significant first.\<close>

definition digit_char :: "nat \<Rightarrow> char" where
  "digit_char d = ''0123456789'' ! d"

fun str_nat :: "nat \<Rightarrow> string" where
  "str_nat n = (if n < 10 then [digit_char n] else str_nat (n div 10) @ [digit_char (n mod 10)])"

declare str_nat.simps [simp del]

definition decimal :: "int \<Rightarrow> string" where
  "decimal i = (if i < 0 then CHR ''-'' # str_nat (nat (- i)) else str_nat (nat i))"

text \<open>
  The interpreter limits the conversions between integers and decimal text
  (\<^verbatim>\<open>sys.get_int_max_str_digits()\<close>, 4300 unless set otherwise, 0 for no limit): a
  conversion of more than 640 digits, the sign not counted, raises ValueError when a
  limit is set and the number of digits is above it. The interpreter accepts as a
  limit only 0 or a number from 640 up.
\<close>

definition MAX_STR_DIGITS_THRESHOLD :: nat where
  "MAX_STR_DIGITS_THRESHOLD = 640"

definition over_limit :: "nat \<Rightarrow> nat \<Rightarrow> bool" where
  "over_limit lim n = (n > MAX_STR_DIGITS_THRESHOLD \<and> lim > 0 \<and> n > lim)"

text \<open>\<^verbatim>\<open>str(i)\<close> and \<^verbatim>\<open>repr(i)\<close> of an integer under the limit \<open>lim\<close>.\<close>

definition str_int :: "nat \<Rightarrow> int \<Rightarrow> error + string" where
  "str_int lim i =
     (if over_limit lim (length (str_nat (nat \<bar>i\<bar>))) then Inl ValueError else Inr (decimal i))"

text \<open>\<^verbatim>\<open>sep.join(parts)\<close>.\<close>

fun join :: "string \<Rightarrow> string list \<Rightarrow> string" where
  "join sep [] = []"
| "join sep [x] = x"
| "join sep (x # y # ys) = x @ sep @ join sep (y # ys)"

text \<open>
  The text of a tuple from the texts of its items: \<^verbatim>\<open>()\<close> when empty, a trailing
  comma for one item, the items separated by a comma and a space otherwise.
\<close>

definition tuple_repr :: "string list \<Rightarrow> string" where
  "tuple_repr items =
     (if items = [] then ''()''
      else if length items = 1 then ''('' @ join '', '' items @ '',)''
      else ''('' @ join '', '' items @ '')'')"

text \<open>
  The items of a tuple are rendered from the left and the first one that raises ends
  the rendering.
\<close>

fun first_error :: "(error + 'a) list \<Rightarrow> error + 'a list" where
  "first_error [] = Inr []"
| "first_error (Inl e # rs) = Inl e"
| "first_error (Inr v # rs) = map_sum id ((#) v) (first_error rs)"

fun str_py :: "nat \<Rightarrow> pyval \<Rightarrow> error + string" where
  "str_py lim (PInt i) = str_int lim i"
| "str_py lim (PTuple vs) = map_sum id tuple_repr (first_error (map (str_py lim) vs))"

text \<open>
  \<^verbatim>\<open>fmt % args\<close> for the conversions the program uses (\<^verbatim>\<open>%s\<close>, \<^verbatim>\<open>%d\<close>) and the
  escape \<^verbatim>\<open>%%\<close>. The format is read left to right; the first problem met raises:
  a lone \<^verbatim>\<open>%\<close> at the end is a ValueError, a missing argument or an argument of
  the wrong type a TypeError, a conversion outside these a ValueError once its argument
  has been taken, an integer beyond the digit limit a ValueError, and arguments left
  over at the end a TypeError.
\<close>

fun percent_format :: "nat \<Rightarrow> string \<Rightarrow> pyval list \<Rightarrow> error + string" where
  "percent_format lim [] [] = Inr []"
| "percent_format lim [] (a # as) = Inl TypeError"
| "percent_format lim [c] as =
     (if c = CHR ''%'' then Inl ValueError
      else (case as of [] \<Rightarrow> Inr [c] | _ # _ \<Rightarrow> Inl TypeError))"
| "percent_format lim (c # d # cs) as =
     (if c \<noteq> CHR ''%'' then map_sum id ((#) c) (percent_format lim (d # cs) as)
      else if d = CHR ''%'' then map_sum id ((#) CHR ''%'') (percent_format lim cs as)
      else if d = CHR ''s'' then
        (case as of
           [] \<Rightarrow> Inl TypeError
         | a # as' \<Rightarrow>
             (case str_py lim a of
                Inl e \<Rightarrow> Inl e
              | Inr t \<Rightarrow> map_sum id ((@) t) (percent_format lim cs as')))
      else if d = CHR ''d'' then
        (case as of
           [] \<Rightarrow> Inl TypeError
         | PInt i # as' \<Rightarrow>
             (case str_int lim i of
                Inl e \<Rightarrow> Inl e
              | Inr t \<Rightarrow> map_sum id ((@) t) (percent_format lim cs as'))
         | PTuple vs # as' \<Rightarrow> Inl TypeError)
      else (case as of [] \<Rightarrow> Inl TypeError | _ # _ \<Rightarrow> Inl ValueError))"

text \<open>\<^verbatim>\<open>sum(xs)\<close>: the running total starts at 0 and takes the items from the left.\<close>

definition sum_py :: "int list \<Rightarrow> int" where
  "sum_py xs = foldl (+) 0 xs"

section \<open>The logging channel\<close>

text \<open>
  The part of Python's \<^verbatim>\<open>logging\<close> package that \<^verbatim>\<open>add.py\<close> and its tests drive:
  numeric levels, records, stream and queue handlers, and a module logger whose parent
  is the root logger.
\<close>

definition NOTSET :: nat where "NOTSET = 0"
definition DEBUG :: nat where "DEBUG = 10"
definition INFO :: nat where "INFO = 20"
definition WARNING :: nat where "WARNING = 30"

datatype log_record = LogRecord (levelno: nat) (msg: string) (args: "pyval list")

text \<open>
  \<^verbatim>\<open>LogRecord.getMessage\<close>, under the digit limit \<open>lim\<close>: the message is formatted only
  when there are arguments.
\<close>

definition getMessage :: "nat \<Rightarrow> log_record \<Rightarrow> error + string" where
  "getMessage lim r =
     (if args r \<noteq> [] then percent_format lim (msg r) (args r) else Inr (msg r))"

datatype stream = Stdout | Stderr | File nat

text \<open>A handler has a level and a destination: a text stream, or a queue of records.\<close>

datatype handler = StreamHandler nat stream | QueueHandler nat nat

fun hlevel :: "handler \<Rightarrow> nat" where
  "hlevel (StreamHandler l s) = l"
| "hlevel (QueueHandler l q) = l"

text \<open>
  The rest of the process: the two standard streams, the other text streams (here the
  temporary file of the test), the queues, and the interpreter's digit limit, which the
  program reads and never sets.
\<close>

record world =
  int_max_str_digits :: nat
  stdout :: string
  stderr :: string
  files :: "nat \<Rightarrow> string"
  queues :: "nat \<Rightarrow> log_record list"

fun stream_write :: "stream \<Rightarrow> string \<Rightarrow> world \<Rightarrow> world" where
  "stream_write Stdout t w = w\<lparr>stdout := stdout w @ t\<rparr>"
| "stream_write Stderr t w = w\<lparr>stderr := stderr w @ t\<rparr>"
| "stream_write (File f) t w = w\<lparr>files := (files w)(f := files w f @ t)\<rparr>"

definition put_nowait :: "nat \<Rightarrow> log_record \<Rightarrow> world \<Rightarrow> world" where
  "put_nowait q r w = w\<lparr>queues := (queues w)(q := queues w q @ [r])\<rparr>"

text \<open>
  \<^verbatim>\<open>Handler.handleError\<close>: an exception raised while a handler works is caught there
  and reported on standard error. Only the first line of the report is modelled.
\<close>

definition handleError :: "world \<Rightarrow> world" where
  "handleError w = stream_write Stderr (''--- Logging error ---'' @ [CHR 0x0A]) w"

text \<open>
  \<^verbatim>\<open>emit\<close>. Every handler here formats a record as its message alone (the default
  formatter, and the \<^verbatim>\<open>'%(message)s'\<close> that \<^verbatim>\<open>basicConfig\<close> is given). A stream handler
  writes the message and a line feed. A queue handler puts a copy of the record whose
  message is the formatted text and whose arguments are gone.
\<close>

fun emit :: "handler \<Rightarrow> log_record \<Rightarrow> world \<Rightarrow> world" where
  "emit (StreamHandler l s) r w =
     (case getMessage (int_max_str_digits w) r of
        Inl e \<Rightarrow> handleError w
      | Inr m \<Rightarrow> stream_write s (m @ [CHR 0x0A]) w)"
| "emit (QueueHandler l q) r w =
     (case getMessage (int_max_str_digits w) r of
        Inl e \<Rightarrow> handleError w
      | Inr m \<Rightarrow> put_nowait q (LogRecord (levelno r) m []) w)"

record logger =
  level :: nat
  handlers :: "handler list"
  propagate :: bool
  disabled :: bool

text \<open>
  The logging state: the module's logger (\<^verbatim>\<open>logging.getLogger(__name__)\<close>, a direct
  child of the root), the root logger, and the manager's \<^verbatim>\<open>disable\<close> threshold.
\<close>

record logging =
  module_logger :: logger
  root :: logger
  manager_disable :: nat

definition getEffectiveLevel :: "logging \<Rightarrow> nat" where
  "getEffectiveLevel L =
     (if level (module_logger L) \<noteq> 0 then level (module_logger L)
      else if level (root L) \<noteq> 0 then level (root L)
      else NOTSET)"

definition isEnabledFor :: "logging \<Rightarrow> nat \<Rightarrow> bool" where
  "isEnabledFor L lvl =
     (if disabled (module_logger L) then False
      else if manager_disable L \<ge> lvl then False
      else lvl \<ge> getEffectiveLevel L)"

text \<open>
  \<^verbatim>\<open>Logger.callHandlers\<close>: the handlers of the module logger, then (when it propagates)
  those of the root, each called when the record's level reaches the handler's. When no
  handler at all was found the handler of last resort, a stream handler on standard
  error at level WARNING, gets the record.
\<close>

definition lastResort :: handler where
  "lastResort = StreamHandler WARNING Stderr"

definition found_handlers :: "logging \<Rightarrow> handler list" where
  "found_handlers L =
     handlers (module_logger L) @ (if propagate (module_logger L) then handlers (root L) else [])"

definition call_handler :: "log_record \<Rightarrow> world \<Rightarrow> handler \<Rightarrow> world" where
  "call_handler r w h = (if levelno r \<ge> hlevel h then emit h r w else w)"

definition callHandlers :: "logging \<Rightarrow> log_record \<Rightarrow> world \<Rightarrow> world" where
  "callHandlers L r w =
     (let w' = foldl (call_handler r) w (found_handlers L)
      in if found_handlers L = [] then call_handler r w' lastResort else w')"

text \<open>\<^verbatim>\<open>Logger.handle\<close> and the level methods \<^verbatim>\<open>debug\<close> and \<^verbatim>\<open>info\<close>.\<close>

definition handle :: "logging \<Rightarrow> log_record \<Rightarrow> world \<Rightarrow> world" where
  "handle L r w = (if disabled (module_logger L) then w else callHandlers L r w)"

definition debug :: "logging \<Rightarrow> string \<Rightarrow> pyval list \<Rightarrow> world \<Rightarrow> world" where
  "debug L fmt as w = (if isEnabledFor L DEBUG then handle L (LogRecord DEBUG fmt as) w else w)"

definition info :: "logging \<Rightarrow> string \<Rightarrow> pyval list \<Rightarrow> world \<Rightarrow> world" where
  "info L fmt as w = (if isEnabledFor L INFO then handle L (LogRecord INFO fmt as) w else w)"

text \<open>
  \<^verbatim>\<open>logging.basicConfig(format='%(message)s', level=lvl)\<close>: does nothing when the root
  logger already has a handler; otherwise gives it a stream handler on standard error
  and sets its level.
\<close>

definition basicConfig :: "nat \<Rightarrow> logging \<Rightarrow> logging" where
  "basicConfig lvl L =
     (if handlers (root L) = []
      then L\<lparr>root := (root L)\<lparr>handlers := [StreamHandler NOTSET Stderr], level := lvl\<rparr>\<rparr>
      else L)"

text \<open>The logging state of a process that has only imported the module.\<close>

definition fresh_logging :: logging where
  "fresh_logging =
     \<lparr>module_logger = \<lparr>level = NOTSET, handlers = [], propagate = True, disabled = False\<rparr>,
      root = \<lparr>level = WARNING, handlers = [], propagate = True, disabled = False\<rparr>,
      manager_disable = 0\<rparr>"

section \<open>The program\<close>

text \<open>
  \<^verbatim>\<open>
  def add(*vargs):
      logger.debug('Calculating the sum of %s', vargs)
      res = sum(vargs)
      logger.debug('Result is %d', res)
      return res
  \<close>
  The logging state in effect and the world are passed in; the sum and the world after
  the two calls on the logger come back.
\<close>

definition add :: "logging \<Rightarrow> int list \<Rightarrow> world \<Rightarrow> int \<times> world" where
  "add L vargs w =
     (let w1 = debug L ''Calculating the sum of %s'' [PTuple (map PInt vargs)] w;
          res = sum_py vargs;
          w2 = debug L ''Result is %d'' [PInt res] w1
      in (res, w2))"

text \<open>
  \<^verbatim>\<open>int(s)\<close> on a string, base 10: white space around, an optional sign, then decimal
  digits, where a single underscore may stand between two digits. White space is the
  characters 9 to 13 and the space, and the no-break space and next-line characters
  (160 and 133). More digits than the digit limit allows, and every other failure,
  raise ValueError.
\<close>

definition is_space :: "char \<Rightarrow> bool" where
  "is_space c = (let n = (of_char c :: nat) in (9 \<le> n \<and> n \<le> 13) \<or> n = 32 \<or> n = 133 \<or> n = 160)"

definition is_digit :: "char \<Rightarrow> bool" where
  "is_digit c = (let n = (of_char c :: nat) in 48 \<le> n \<and> n \<le> 57)"

definition digit_val :: "char \<Rightarrow> nat" where
  "digit_val c = of_char c - 48"

text \<open>
  The scan over digits and underscores: \<open>prev\<close> is the character read last, \<open>acc\<close>
  the value so far, \<open>n\<close> the number of digits read. Two underscores in a row fail;
  the scan stops at the first other character and returns what is left.
\<close>

fun scan_digits ::
  "char \<Rightarrow> nat \<Rightarrow> nat \<Rightarrow> string \<Rightarrow> (char \<times> nat \<times> nat \<times> string) option" where
  "scan_digits prev acc n [] = Some (prev, acc, n, [])"
| "scan_digits prev acc n (c # cs) =
     (if c = CHR ''_'' then (if prev = CHR ''_'' then None else scan_digits c acc n cs)
      else if is_digit c then scan_digits c (10 * acc + digit_val c) (Suc n) cs
      else Some (prev, acc, n, c # cs))"

definition int_py :: "nat \<Rightarrow> string \<Rightarrow> error + int" where
  "int_py lim s =
     (let s1 = dropWhile is_space s;
          neg = (s1 \<noteq> [] \<and> hd s1 = CHR ''-'');
          s2 = (if s1 \<noteq> [] \<and> (hd s1 = CHR ''+'' \<or> hd s1 = CHR ''-'') then tl s1 else s1)
      in if s2 \<noteq> [] \<and> hd s2 = CHR ''_'' then Inl ValueError
         else (case scan_digits (CHR 0x00) 0 0 s2 of
                 None \<Rightarrow> Inl ValueError
               | Some (prev, v, n, rest) \<Rightarrow>
                   if prev = CHR ''_'' then Inl ValueError
                   else if over_limit lim n then Inl ValueError
                   else if length rest = length s2 then Inl ValueError
                   else if dropWhile is_space rest \<noteq> [] then Inl ValueError
                   else Inr (if neg then - int v else int v)))"

text \<open>
  \<^verbatim>\<open>[int(i) for i in sys.argv[1:]]\<close>: the conversions run left to right and the first
  failure raises; no list is built then.
\<close>

fun convert_all :: "nat \<Rightarrow> string list \<Rightarrow> error + int list" where
  "convert_all lim [] = Inr []"
| "convert_all lim (a # as) =
     (case int_py lim a of
        Inl e \<Rightarrow> Inl e
      | Inr i \<Rightarrow> (case convert_all lim as of Inl e \<Rightarrow> Inl e | Inr is \<Rightarrow> Inr (i # is)))"

text \<open>
  \<^verbatim>\<open>
  if __name__ == '__main__':
      logging.basicConfig(format='%(message)s', level=logging.INFO)
      a = add(*[int(i) for i in sys.argv[1:]])
      logger.info('%d', a)
  \<close>
  \<open>main\<close> takes the logging state at the start of the script, \<^verbatim>\<open>sys.argv\<close> (the script's
  name first) and the world. An exception that nothing catches is the result \<open>Inl\<close>;
  the traceback that the interpreter then prints on standard error is not part of the
  world returned. The interpreter exits with status 1 after an uncaught exception and
  with status 0 when the script runs to its end.
\<close>

definition main :: "logging \<Rightarrow> string list \<Rightarrow> world \<Rightarrow> (error + unit) \<times> world" where
  "main L0 argv w =
     (let L = basicConfig INFO L0
      in case convert_all (int_max_str_digits w) (drop 1 argv) of
           Inl e \<Rightarrow> (Inl e, w)
         | Inr vargs \<Rightarrow>
             (let (a, w1) = add L vargs w;
                  w2 = info L ''%d'' [PInt a] w1
              in (Inr (), w2)))"

definition exit_status :: "(error + unit) \<times> world \<Rightarrow> nat" where
  "exit_status r = (case fst r of Inl e \<Rightarrow> 1 | Inr u \<Rightarrow> 0)"

section \<open>What the tests read back\<close>

text \<open>
  Reading a text file translates the line ends \<^verbatim>\<open>\r\n\<close> and \<^verbatim>\<open>\r\<close> to \<^verbatim>\<open>\n\<close>.
\<close>

fun universal_newlines :: "string \<Rightarrow> string" where
  "universal_newlines [] = []"
| "universal_newlines [c] = (if c = CHR 0x0D then [CHR 0x0A] else [c])"
| "universal_newlines (c # d # cs) =
     (if c = CHR 0x0D \<and> d = CHR 0x0A then CHR 0x0A # universal_newlines cs
      else if c = CHR 0x0D then CHR 0x0A # universal_newlines (d # cs)
      else c # universal_newlines (d # cs))"

text \<open>
  \<^verbatim>\<open>str.splitlines()\<close>: a line ends at a line feed, a carriage return (with the line
  feed after it, if any), or one of the characters 11, 12, 28, 29, 30 and 133; the line
  ends are dropped, and there is no empty last line.
\<close>

definition is_linebreak :: "char \<Rightarrow> bool" where
  "is_linebreak c = (of_char c \<in> set [10, 11, 12, 13, 28, 29, 30, 133 :: nat])"

fun splitlines_from :: "string \<Rightarrow> string \<Rightarrow> string list" where
  "splitlines_from cur [] = (if cur = [] then [] else [cur])"
| "splitlines_from cur [c] = (if is_linebreak c then [cur] else [cur @ [c]])"
| "splitlines_from cur (c # d # cs) =
     (if c = CHR 0x0D \<and> d = CHR 0x0A then cur # splitlines_from [] cs
      else if is_linebreak c then cur # splitlines_from [] (d # cs)
      else splitlines_from (cur @ [c]) (d # cs))"

definition splitlines :: "string \<Rightarrow> string list" where
  "splitlines t = splitlines_from [] t"

text \<open>
  The stream test: \<^verbatim>\<open>log.seek(0); log.read().splitlines()\<close> on the temporary file.
  The queue test: \<^verbatim>\<open>q.get_nowait().getMessage()\<close> on each record in turn.
\<close>

definition read_lines :: "world \<Rightarrow> nat \<Rightarrow> string list" where
  "read_lines w f = splitlines (universal_newlines (files w f))"

definition queue_messages :: "world \<Rightarrow> nat \<Rightarrow> (error + string) list" where
  "queue_messages w q = map (getMessage (int_max_str_digits w)) (queues w q)"

text \<open>
  A process in which nothing has been written yet, with the digit limit the interpreter
  starts with.
\<close>

definition empty_world :: world where
  "empty_world =
     \<lparr>int_max_str_digits = 4300, stdout = [], stderr = [], files = (\<lambda>f. []),
      queues = (\<lambda>q. [])\<rparr>"

text \<open>
  The fixture of both log tests: \<^verbatim>\<open>logger.setLevel(logging.DEBUG)\<close> and
  \<^verbatim>\<open>logger.addHandler(handler)\<close> on the module's logger. A handler that the logger
  already has is not added again; handlers are compared here by level and destination.
\<close>

definition setLevel :: "nat \<Rightarrow> logging \<Rightarrow> logging" where
  "setLevel lvl L = L\<lparr>module_logger := (module_logger L)\<lparr>level := lvl\<rparr>\<rparr>"

definition addHandler :: "handler \<Rightarrow> logging \<Rightarrow> logging" where
  "addHandler h L =
     (if h \<in> set (handlers (module_logger L)) then L
      else L\<lparr>module_logger := (module_logger L)\<lparr>handlers := handlers (module_logger L) @ [h]\<rparr>\<rparr>)"

text \<open>The logging state of each log test when it calls \<^verbatim>\<open>add.add(*params)\<close>.\<close>

definition stream_fixture :: logging where
  "stream_fixture = addHandler (StreamHandler NOTSET (File 0)) (setLevel DEBUG fresh_logging)"

definition queue_fixture :: logging where
  "queue_fixture = addHandler (QueueHandler NOTSET 0) (setLevel DEBUG fresh_logging)"

section \<open>Who hears a record\<close>

text \<open>
  An integer renders within the limit; the text on a stream; the handlers that deliver
  a record of a given level to a given stream or queue.
\<close>

definition fits :: "nat \<Rightarrow> int \<Rightarrow> bool" where
  "fits lim i = (\<not> over_limit lim (length (str_nat (nat \<bar>i\<bar>))))"

text \<open>An integer of 4301 digits, one more than the limit the interpreter starts with.\<close>

definition big_integer :: int where
  "big_integer = 10 ^ 4300"

fun stream_text :: "world \<Rightarrow> stream \<Rightarrow> string" where
  "stream_text w Stdout = stdout w"
| "stream_text w Stderr = stderr w"
| "stream_text w (File f) = files w f"

fun hears_stream :: "stream \<Rightarrow> nat \<Rightarrow> handler \<Rightarrow> bool" where
  "hears_stream s lvl (StreamHandler l s') = (s' = s \<and> l \<le> lvl)"
| "hears_stream s lvl (QueueHandler l q) = False"

fun hears_queue :: "nat \<Rightarrow> nat \<Rightarrow> handler \<Rightarrow> bool" where
  "hears_queue q lvl (StreamHandler l s) = False"
| "hears_queue q lvl (QueueHandler l q') = (q' = q \<and> l \<le> lvl)"

text \<open>
  How many handlers deliver a DEBUG record of the module's logger to a queue or to a
  stream: none when the logger is not enabled for DEBUG.
\<close>

definition queue_listeners :: "logging \<Rightarrow> nat \<Rightarrow> nat" where
  "queue_listeners L q =
     (if isEnabledFor L DEBUG then length (filter (hears_queue q DEBUG) (found_handlers L)) else 0)"

definition stream_listeners :: "logging \<Rightarrow> stream \<Rightarrow> nat" where
  "stream_listeners L s =
     (if isEnabledFor L DEBUG then length (filter (hears_stream s DEBUG) (found_handlers L)) else 0)"

section \<open>Values and formats\<close>

lemma foldl_add_start: "foldl (+) (a::int) xs = a + sum_list xs"
  by (induction xs arbitrary: a) simp_all

lemma sum_py_sum_list: "sum_py xs = sum_list xs"
  by (simp add: sum_py_def foldl_add_start)

lemma add_fst: "fst (add L xs w) = sum_list xs"
  by (simp add: add_def Let_def sum_py_sum_list)

lemma str_int_fits: "str_int lim i = (if fits lim i then Inr (decimal i) else Inl ValueError)"
  by (simp add: str_int_def fits_def)

lemma first_error_ints:
  "first_error (map (str_py lim) (map PInt xs)) =
   (if list_all (fits lim) xs then Inr (map decimal xs) else Inl ValueError)"
  by (induction xs) (simp_all add: str_int_fits)

lemma str_py_ints:
  "str_py lim (PTuple (map PInt xs)) =
   (if list_all (fits lim) xs then Inr (tuple_repr (map decimal xs)) else Inl ValueError)"
  unfolding str_py.simps first_error_ints by simp

lemma format_inputs:
  "percent_format lim ''Calculating the sum of %s'' [v] =
   map_sum id ((@) ''Calculating the sum of '') (str_py lim v)"
  by (cases "str_py lim v") simp_all

lemma format_result:
  "percent_format lim ''Result is %d'' [PInt i] =
   (if fits lim i then Inr (''Result is '' @ decimal i) else Inl ValueError)"
  by (simp add: str_int_fits)

lemma format_number:
  "percent_format lim ''%d'' [PInt i] = (if fits lim i then Inr (decimal i) else Inl ValueError)"
  by (simp add: str_int_fits)

lemma message_inputs:
  "getMessage lim (LogRecord DEBUG ''Calculating the sum of %s'' [PTuple (map PInt xs)]) =
   (if list_all (fits lim) xs
    then Inr (''Calculating the sum of '' @ tuple_repr (map decimal xs))
    else Inl ValueError)"
  unfolding getMessage_def log_record.sel format_inputs str_py_ints by simp

lemma message_result:
  "getMessage lim (LogRecord DEBUG ''Result is %d'' [PInt i]) =
   (if fits lim i then Inr (''Result is '' @ decimal i) else Inl ValueError)"
  unfolding getMessage_def log_record.sel format_result by simp

lemma message_plain: "getMessage lim (LogRecord lvl m []) = Inr m"
  by (simp add: getMessage_def)

lemma small_fits: "length (str_nat (nat \<bar>i\<bar>)) \<le> 640 \<Longrightarrow> fits lim i"
  by (simp add: fits_def over_limit_def MAX_STR_DIGITS_THRESHOLD_def)

lemma no_limit_fits: "fits 0 i"
  by (simp add: fits_def over_limit_def)

lemma str_nat_pow10: "length (str_nat (10 ^ n)) = Suc n"
proof (induction n)
  case 0
  show ?case by (simp add: str_nat.simps)
next
  case (Suc n)
  have "\<not> (10::nat) ^ Suc n < 10" by simp
  then have "str_nat (10 ^ Suc n) = str_nat (10 ^ Suc n div 10) @ [digit_char (10 ^ Suc n mod 10)]"
    by (subst str_nat.simps) simp
  then show ?case using Suc by simp
qed

lemma fits_pow10: "fits lim (10 ^ n) = (\<not> over_limit lim (Suc n))"
proof -
  have "nat \<bar>(10::int) ^ n\<bar> = 10 ^ n" by (simp add: nat_power_eq)
  then have "length (str_nat (nat \<bar>(10::int) ^ n\<bar>)) = Suc n"
    by (simp only: str_nat_pow10)
  then show ?thesis by (simp only: fits_def)
qed

lemma big_integer_over: "\<not> fits 4300 big_integer"
proof -
  have "over_limit 4300 (Suc 4300)"
    by (simp add: over_limit_def MAX_STR_DIGITS_THRESHOLD_def)
  then show ?thesis unfolding big_integer_def fits_pow10 by simp
qed

section \<open>Handlers and sinks\<close>

lemma stream_text_write:
  "stream_text (stream_write s t w) s' = (if s' = s then stream_text w s' @ t else stream_text w s')"
  by (cases s; cases s') auto

lemma queues_write: "queues (stream_write s t w) = queues w"
  by (cases s) auto

lemma limit_write: "int_max_str_digits (stream_write s t w) = int_max_str_digits w"
  by (cases s) auto

lemma stream_text_put: "stream_text (put_nowait q r w) s = stream_text w s"
  by (cases s) (auto simp: put_nowait_def)

lemma queues_put: "queues (put_nowait q r w) q' = (if q' = q then queues w q' @ [r] else queues w q')"
  by (auto simp: put_nowait_def)

lemma limit_put: "int_max_str_digits (put_nowait q r w) = int_max_str_digits w"
  by (simp add: put_nowait_def)

lemma queues_handleError: "queues (handleError w) = queues w"
  by (simp add: handleError_def)

lemma stream_text_handleError: "s \<noteq> Stderr \<Longrightarrow> stream_text (handleError w) s = stream_text w s"
  by (cases s) (simp_all add: handleError_def)

lemma limit_call_handler: "int_max_str_digits (call_handler r w h) = int_max_str_digits w"
  by (cases h) (simp_all add: call_handler_def handleError_def limit_write limit_put split: sum.splits)

lemma limit_foldl: "int_max_str_digits (foldl (call_handler r) w hs) = int_max_str_digits w"
  by (induction hs arbitrary: w) (simp_all add: limit_call_handler)

lemma limit_debug: "int_max_str_digits (debug L fmt as w) = int_max_str_digits w"
  by (simp add: debug_def handle_def callHandlers_def Let_def limit_call_handler limit_foldl)


lemma foldl_handlers_queue:
  assumes "getMessage (int_max_str_digits w) r = Inr m"
  shows "queues (foldl (call_handler r) w hs) q =
         queues w q @ replicate (length (filter (hears_queue q (levelno r)) hs)) (LogRecord (levelno r) m [])"
  using assms
proof (induction hs arbitrary: w)
  case Nil
  then show ?case by simp
next
  case (Cons h hs)
  have keep: "getMessage (int_max_str_digits (call_handler r w h)) r = Inr m"
    using Cons.prems by (simp only: limit_call_handler)
  show ?case
  proof (cases h)
    case (StreamHandler l s)
    then show ?thesis
      using Cons.IH [OF keep] Cons.prems by (simp add: call_handler_def queues_write)
  next
    case (QueueHandler l q')
    then show ?thesis
      using Cons.IH [OF keep] Cons.prems
      by (simp add: call_handler_def queues_put replicate_app_Cons_same)
  qed
qed

lemma foldl_handlers_stream:
  assumes "getMessage (int_max_str_digits w) r = Inr m"
  shows "stream_text (foldl (call_handler r) w hs) s =
         stream_text w s @ concat (replicate (length (filter (hears_stream s (levelno r)) hs)) (m @ [CHR 0x0A]))"
  using assms
proof (induction hs arbitrary: w)
  case Nil
  then show ?case by simp
next
  case (Cons h hs)
  have keep: "getMessage (int_max_str_digits (call_handler r w h)) r = Inr m"
    using Cons.prems by (simp only: limit_call_handler)
  show ?case
  proof (cases h)
    case (StreamHandler l s')
    then show ?thesis
      using Cons.IH [OF keep] Cons.prems by (simp add: call_handler_def stream_text_write)
  next
    case (QueueHandler l q')
    then show ?thesis
      using Cons.IH [OF keep] Cons.prems by (simp add: call_handler_def stream_text_put)
  qed
qed

lemma foldl_handlers_queue_failed:
  assumes "getMessage (int_max_str_digits w) r = Inl e"
  shows "queues (foldl (call_handler r) w hs) q = queues w q"
  using assms
proof (induction hs arbitrary: w)
  case Nil
  then show ?case by simp
next
  case (Cons h hs)
  have keep: "getMessage (int_max_str_digits (call_handler r w h)) r = Inl e"
    using Cons.prems by (simp only: limit_call_handler)
  show ?case
    using Cons.IH [OF keep] Cons.prems
    by (cases h) (simp_all add: call_handler_def queues_handleError)
qed

lemma foldl_handlers_stream_failed:
  assumes "getMessage (int_max_str_digits w) r = Inl e" and "s \<noteq> Stderr"
  shows "stream_text (foldl (call_handler r) w hs) s = stream_text w s"
  using assms
proof (induction hs arbitrary: w)
  case Nil
  then show ?case by simp
next
  case (Cons h hs)
  have keep: "getMessage (int_max_str_digits (call_handler r w h)) r = Inl e"
    using Cons.prems by (simp only: limit_call_handler)
  show ?case
    using Cons.IH [OF keep Cons.prems(2)] Cons.prems
    by (cases h) (simp_all add: call_handler_def stream_text_handleError)
qed

lemma lastResort_ignores_debug: "call_handler (LogRecord DEBUG fmt as) w lastResort = w"
  by (simp add: call_handler_def lastResort_def DEBUG_def WARNING_def)

lemma enabled_not_disabled: "isEnabledFor L lvl \<Longrightarrow> \<not> disabled (module_logger L)"
  by (auto simp: isEnabledFor_def split: if_splits)

lemma debug_enabled:
  "isEnabledFor L DEBUG \<Longrightarrow>
   debug L fmt as w = foldl (call_handler (LogRecord DEBUG fmt as)) w (found_handlers L)"
  by (simp add: debug_def handle_def callHandlers_def Let_def enabled_not_disabled
      lastResort_ignores_debug)

lemma debug_not_enabled: "\<not> isEnabledFor L DEBUG \<Longrightarrow> debug L fmt as w = w"
  by (simp add: debug_def)

lemma debug_queue:
  assumes "getMessage (int_max_str_digits w) (LogRecord DEBUG fmt as) = Inr m"
  shows "queues (debug L fmt as w) q =
         queues w q @ replicate (queue_listeners L q) (LogRecord DEBUG m [])"
proof (cases "isEnabledFor L DEBUG")
  case True
  then show ?thesis
    using foldl_handlers_queue [OF assms, of "found_handlers L" q]
    by (simp add: debug_enabled queue_listeners_def)
next
  case False
  then show ?thesis by (simp add: debug_not_enabled queue_listeners_def)
qed

lemma debug_queue_failed:
  assumes "getMessage (int_max_str_digits w) (LogRecord DEBUG fmt as) = Inl e"
  shows "queues (debug L fmt as w) q = queues w q"
proof (cases "isEnabledFor L DEBUG")
  case True
  then show ?thesis
    using foldl_handlers_queue_failed [OF assms, of "found_handlers L" q]
    by (simp add: debug_enabled)
next
  case False
  then show ?thesis by (simp add: debug_not_enabled)
qed

lemma debug_stream:
  assumes "getMessage (int_max_str_digits w) (LogRecord DEBUG fmt as) = Inr m"
  shows "stream_text (debug L fmt as w) s =
         stream_text w s @ concat (replicate (stream_listeners L s) (m @ [CHR 0x0A]))"
proof (cases "isEnabledFor L DEBUG")
  case True
  then show ?thesis
    using foldl_handlers_stream [OF assms, of "found_handlers L" s]
    by (simp add: debug_enabled stream_listeners_def)
next
  case False
  then show ?thesis by (simp add: debug_not_enabled stream_listeners_def)
qed

lemma debug_stream_failed:
  assumes "getMessage (int_max_str_digits w) (LogRecord DEBUG fmt as) = Inl e" and "s \<noteq> Stderr"
  shows "stream_text (debug L fmt as w) s = stream_text w s"
proof (cases "isEnabledFor L DEBUG")
  case True
  then show ?thesis
    using foldl_handlers_stream_failed [OF assms, of "found_handlers L"]
    by (simp add: debug_enabled)
next
  case False
  then show ?thesis by (simp add: debug_not_enabled)
qed

lemma add_queue:
  "queues (snd (add L xs w)) q =
   queues w q
   @ replicate (if list_all (fits (int_max_str_digits w)) xs then queue_listeners L q else 0)
       (LogRecord DEBUG (''Calculating the sum of '' @ tuple_repr (map decimal xs)) [])
   @ replicate (if fits (int_max_str_digits w) (sum_list xs) then queue_listeners L q else 0)
       (LogRecord DEBUG (''Result is '' @ decimal (sum_list xs)) [])"
proof -
  define w1 where "w1 = debug L ''Calculating the sum of %s'' [PTuple (map PInt xs)] w"
  have lim: "int_max_str_digits w1 = int_max_str_digits w"
    by (simp add: w1_def limit_debug)
  have first: "queues w1 q =
      queues w q
      @ replicate (if list_all (fits (int_max_str_digits w)) xs then queue_listeners L q else 0)
          (LogRecord DEBUG (''Calculating the sum of '' @ tuple_repr (map decimal xs)) [])"
  proof (cases "list_all (fits (int_max_str_digits w)) xs")
    case True
    then have "getMessage (int_max_str_digits w)
        (LogRecord DEBUG ''Calculating the sum of %s'' [PTuple (map PInt xs)])
        = Inr (''Calculating the sum of '' @ tuple_repr (map decimal xs))"
      by (simp only: message_inputs if_True)
    from debug_queue [OF this, of L q] True show ?thesis by (simp add: w1_def)
  next
    case False
    then have "getMessage (int_max_str_digits w)
        (LogRecord DEBUG ''Calculating the sum of %s'' [PTuple (map PInt xs)]) = Inl ValueError"
      by (simp only: message_inputs if_False)
    from debug_queue_failed [OF this, of L q] False show ?thesis by (simp add: w1_def)
  qed
  have second: "queues (debug L ''Result is %d'' [PInt (sum_list xs)] w1) q =
      queues w1 q
      @ replicate (if fits (int_max_str_digits w) (sum_list xs) then queue_listeners L q else 0)
          (LogRecord DEBUG (''Result is '' @ decimal (sum_list xs)) [])"
  proof (cases "fits (int_max_str_digits w) (sum_list xs)")
    case True
    then have "getMessage (int_max_str_digits w1) (LogRecord DEBUG ''Result is %d'' [PInt (sum_list xs)])
        = Inr (''Result is '' @ decimal (sum_list xs))"
      by (simp only: message_result lim if_True)
    from debug_queue [OF this, of L q] True show ?thesis by simp
  next
    case False
    then have "getMessage (int_max_str_digits w1) (LogRecord DEBUG ''Result is %d'' [PInt (sum_list xs)])
        = Inl ValueError"
      by (simp only: message_result lim if_False)
    from debug_queue_failed [OF this, of L q] False show ?thesis by simp
  qed
  have "snd (add L xs w) = debug L ''Result is %d'' [PInt (sum_list xs)] w1"
    by (simp add: add_def Let_def w1_def sum_py_sum_list)
  then show ?thesis by (simp only: second first append_assoc)
qed

lemma add_stream:
  assumes "s \<noteq> Stderr \<or>
           (list_all (fits (int_max_str_digits w)) xs \<and> fits (int_max_str_digits w) (sum_list xs))"
  shows "stream_text (snd (add L xs w)) s =
   stream_text w s
   @ concat (replicate (if list_all (fits (int_max_str_digits w)) xs then stream_listeners L s else 0)
       ((''Calculating the sum of '' @ tuple_repr (map decimal xs)) @ [CHR 0x0A]))
   @ concat (replicate (if fits (int_max_str_digits w) (sum_list xs) then stream_listeners L s else 0)
       ((''Result is '' @ decimal (sum_list xs)) @ [CHR 0x0A]))"
proof -
  define w1 where "w1 = debug L ''Calculating the sum of %s'' [PTuple (map PInt xs)] w"
  have lim: "int_max_str_digits w1 = int_max_str_digits w"
    by (simp add: w1_def limit_debug)
  have first: "stream_text w1 s =
      stream_text w s
      @ concat (replicate (if list_all (fits (int_max_str_digits w)) xs then stream_listeners L s else 0)
          ((''Calculating the sum of '' @ tuple_repr (map decimal xs)) @ [CHR 0x0A]))"
  proof (cases "list_all (fits (int_max_str_digits w)) xs")
    case True
    then have "getMessage (int_max_str_digits w)
        (LogRecord DEBUG ''Calculating the sum of %s'' [PTuple (map PInt xs)])
        = Inr (''Calculating the sum of '' @ tuple_repr (map decimal xs))"
      by (simp only: message_inputs if_True)
    from debug_stream [OF this, of L s] True show ?thesis by (simp add: w1_def)
  next
    case False
    then have s: "s \<noteq> Stderr" using assms by blast
    from False have "getMessage (int_max_str_digits w)
        (LogRecord DEBUG ''Calculating the sum of %s'' [PTuple (map PInt xs)]) = Inl ValueError"
      by (simp only: message_inputs if_False)
    from debug_stream_failed [OF this s, of L] False show ?thesis by (simp add: w1_def)
  qed
  have second: "stream_text (debug L ''Result is %d'' [PInt (sum_list xs)] w1) s =
      stream_text w1 s
      @ concat (replicate (if fits (int_max_str_digits w) (sum_list xs) then stream_listeners L s else 0)
          ((''Result is '' @ decimal (sum_list xs)) @ [CHR 0x0A]))"
  proof (cases "fits (int_max_str_digits w) (sum_list xs)")
    case True
    then have "getMessage (int_max_str_digits w1) (LogRecord DEBUG ''Result is %d'' [PInt (sum_list xs)])
        = Inr (''Result is '' @ decimal (sum_list xs))"
      by (simp only: message_result lim if_True)
    from debug_stream [OF this, of L s] True show ?thesis by simp
  next
    case False
    then have s: "s \<noteq> Stderr" using assms by blast
    from False have "getMessage (int_max_str_digits w1) (LogRecord DEBUG ''Result is %d'' [PInt (sum_list xs)])
        = Inl ValueError"
      by (simp only: message_result lim if_False)
    from debug_stream_failed [OF this s, of L] False show ?thesis by simp
  qed
  have "snd (add L xs w) = debug L ''Result is %d'' [PInt (sum_list xs)] w1"
    by (simp add: add_def Let_def w1_def sum_py_sum_list)
  then show ?thesis by (simp only: second first append_assoc)
qed

section \<open>Lines read back from a stream\<close>

lemma universal_newlines_plain: "CHR 0x0D \<notin> set t \<Longrightarrow> universal_newlines t = t"
  by (induction t rule: universal_newlines.induct) auto

lemma splitlines_from_line:
  "\<forall>c \<in> set m. \<not> is_linebreak c \<Longrightarrow>
   splitlines_from cur (m @ CHR 0x0A # rest) = (cur @ m) # splitlines_from [] rest"
proof (induction m arbitrary: cur)
  case Nil
  show ?case by (cases rest) (simp_all add: is_linebreak_def)
next
  case (Cons c m)
  then have c: "\<not> is_linebreak c" and m: "\<forall>c \<in> set m. \<not> is_linebreak c" by simp_all
  from c have cr: "c \<noteq> CHR 0x0D" by (auto simp: is_linebreak_def)
  obtain d ds where ds: "m @ CHR 0x0A # rest = d # ds" by (cases m) auto
  have "splitlines_from cur ((c # m) @ CHR 0x0A # rest) = splitlines_from (cur @ [c]) (m @ CHR 0x0A # rest)"
    using c cr ds by simp
  also have "\<dots> = ((cur @ [c]) @ m) # splitlines_from [] rest"
    using Cons.IH [OF m] .
  finally show ?case by simp
qed

lemma splitlines_two:
  assumes "\<forall>c \<in> set a. \<not> is_linebreak c" and "\<forall>c \<in> set b. \<not> is_linebreak c"
  shows "splitlines (a @ [CHR 0x0A] @ b @ [CHR 0x0A]) = [a, b]"
  using splitlines_from_line [OF assms(1), of "[]" "b @ [CHR 0x0A]"]
    splitlines_from_line [OF assms(2), of "[]" "[]"]
  by (simp add: splitlines_def)

lemma digit_char_plain: "d < 10 \<Longrightarrow> \<not> is_linebreak (digit_char d)"
proof -
  assume "d < 10"
  then consider "d = 0" | "d = 1" | "d = 2" | "d = 3" | "d = 4" | "d = 5" | "d = 6" | "d = 7"
    | "d = 8" | "d = 9" by atomize_elim arith
  then show ?thesis
    by cases (simp_all add: digit_char_def is_linebreak_def)
qed

lemma str_nat_plain: "\<forall>c \<in> set (str_nat n). \<not> is_linebreak c"
proof (induction n rule: str_nat.induct)
  case (1 n)
  show ?case
  proof (cases "n < 10")
    case True
    have "str_nat n = [digit_char n]" using True by (subst str_nat.simps) simp
    then show ?thesis using digit_char_plain [OF True] by simp
  next
    case False
    have e: "str_nat n = str_nat (n div 10) @ [digit_char (n mod 10)]"
      using False by (subst str_nat.simps) simp
    have "\<not> is_linebreak (digit_char (n mod 10))" by (rule digit_char_plain) simp
    moreover have "\<forall>c \<in> set (str_nat (n div 10)). \<not> is_linebreak c" using 1 False by blast
    ultimately show ?thesis unfolding e by simp
  qed
qed

lemma decimal_plain: "\<forall>c \<in> set (decimal i). \<not> is_linebreak c"
  using str_nat_plain by (simp add: decimal_def is_linebreak_def)

lemma join_plain:
  "\<forall>c \<in> set sep. \<not> is_linebreak c \<Longrightarrow> \<forall>x \<in> set xs. \<forall>c \<in> set x. \<not> is_linebreak c \<Longrightarrow>
   \<forall>c \<in> set (join sep xs). \<not> is_linebreak c"
  by (induction sep xs rule: join.induct) auto

lemma tuple_repr_plain: "\<forall>c \<in> set (tuple_repr (map decimal xs)). \<not> is_linebreak c"
proof -
  have sep: "\<forall>c \<in> set '', ''. \<not> is_linebreak c" by (simp add: is_linebreak_def)
  have items: "\<forall>x \<in> set (map decimal xs). \<forall>c \<in> set x. \<not> is_linebreak c"
    using decimal_plain by simp
  have j: "\<forall>c \<in> set (join '', '' (map decimal xs)). \<not> is_linebreak c"
    by (rule join_plain [OF sep items])
  have p: "\<not> is_linebreak CHR ''(''" "\<not> is_linebreak CHR '')''" "\<not> is_linebreak CHR '',''"
    by (simp_all add: is_linebreak_def)
  show ?thesis using j p by (simp add: tuple_repr_def)
qed

lemma first_text_plain:
  "\<forall>c \<in> set (''Calculating the sum of '' @ tuple_repr (map decimal xs)). \<not> is_linebreak c"
proof -
  have "\<forall>c \<in> set ''Calculating the sum of ''. \<not> is_linebreak c"
    by (simp add: is_linebreak_def)
  then show ?thesis using tuple_repr_plain [of xs] by (simp only: set_append ball_Un)
qed

lemma second_text_plain: "\<forall>c \<in> set (''Result is '' @ decimal i). \<not> is_linebreak c"
proof -
  have "\<forall>c \<in> set ''Result is ''. \<not> is_linebreak c"
    by (simp add: is_linebreak_def)
  then show ?thesis using decimal_plain [of i] by (simp only: set_append ball_Un)
qed

lemma no_cr: "\<forall>c \<in> set t. \<not> is_linebreak c \<Longrightarrow> CHR 0x0D \<notin> set t"
  by (auto simp: is_linebreak_def)

lemma read_two_lines:
  assumes "\<forall>c \<in> set a. \<not> is_linebreak c" and "\<forall>c \<in> set b. \<not> is_linebreak c"
  shows "splitlines (universal_newlines (a @ [CHR 0x0A] @ b @ [CHR 0x0A])) = [a, b]"
proof -
  have "CHR 0x0D \<notin> set (a @ [CHR 0x0A] @ b @ [CHR 0x0A])"
    using no_cr [OF assms(1)] no_cr [OF assms(2)] by simp
  then have "universal_newlines (a @ [CHR 0x0A] @ b @ [CHR 0x0A]) = a @ [CHR 0x0A] @ b @ [CHR 0x0A]"
    by (rule universal_newlines_plain)
  then show ?thesis
    using splitlines_two [OF assms] by simp
qed

lemma read_one_line:
  assumes "\<forall>c \<in> set a. \<not> is_linebreak c"
  shows "splitlines (universal_newlines (a @ [CHR 0x0A])) = [a]"
proof -
  have "CHR 0x0D \<notin> set (a @ [CHR 0x0A])"
    using no_cr [OF assms] by simp
  then have "universal_newlines (a @ [CHR 0x0A]) = a @ [CHR 0x0A]"
    by (rule universal_newlines_plain)
  then show ?thesis
    using splitlines_from_line [OF assms, of "[]" "[]"] by (simp add: splitlines_def)
qed

lemma read_nothing: "splitlines (universal_newlines []) = []"
  by (simp add: splitlines_def)

section \<open>One listener on a sink\<close>

lemma read_lines_add:
  assumes "stream_listeners L (File f) = 1" and "files w f = []"
  shows "read_lines (snd (add L xs w)) f =
         (if list_all (fits (int_max_str_digits w)) xs
          then [''Calculating the sum of '' @ tuple_repr (map decimal xs)] else [])
         @ (if fits (int_max_str_digits w) (sum_list xs)
            then [''Result is '' @ decimal (sum_list xs)] else [])"
proof -
  have "File f \<noteq> Stderr \<or>
        (list_all (fits (int_max_str_digits w)) xs \<and> fits (int_max_str_digits w) (sum_list xs))"
    by simp
  from add_stream [OF this, of L] assms
  have t: "files (snd (add L xs w)) f =
      concat (replicate (if list_all (fits (int_max_str_digits w)) xs then 1 else 0)
        ((''Calculating the sum of '' @ tuple_repr (map decimal xs)) @ [CHR 0x0A]))
      @ concat (replicate (if fits (int_max_str_digits w) (sum_list xs) then 1 else 0)
        ((''Result is '' @ decimal (sum_list xs)) @ [CHR 0x0A]))"
    by simp
  show ?thesis
    unfolding read_lines_def t
    using read_two_lines [OF first_text_plain second_text_plain, of xs "sum_list xs"]
      read_one_line [OF first_text_plain, of xs]
      read_one_line [OF second_text_plain, of "sum_list xs"]
      read_nothing
    by simp
qed

lemma queue_messages_add:
  assumes "queue_listeners L q = 1" and "queues w q = []"
  shows "queue_messages (snd (add L xs w)) q =
         (if list_all (fits (int_max_str_digits w)) xs
          then [Inr (''Calculating the sum of '' @ tuple_repr (map decimal xs))] else [])
         @ (if fits (int_max_str_digits w) (sum_list xs)
            then [Inr (''Result is '' @ decimal (sum_list xs))] else [])"
  using add_queue [of L xs w q] assms
  by (simp add: queue_messages_def message_plain)



lemma enabled_fixture: "isEnabledFor (addHandler h (setLevel DEBUG fresh_logging)) DEBUG"
  by (simp add: isEnabledFor_def getEffectiveLevel_def addHandler_def setLevel_def
      fresh_logging_def DEBUG_def)

lemma stream_fixture_hears: "stream_listeners stream_fixture (File 0) = 1"
  unfolding stream_listeners_def stream_fixture_def
  by (simp add: enabled_fixture)
    (simp add: found_handlers_def addHandler_def setLevel_def fresh_logging_def NOTSET_def)

lemma queue_fixture_hears: "queue_listeners queue_fixture 0 = 1"
  unfolding queue_listeners_def queue_fixture_def
  by (simp add: enabled_fixture)
    (simp add: found_handlers_def addHandler_def setLevel_def fresh_logging_def NOTSET_def)

lemma empty_world_sinks: "files empty_world f = []" "queues empty_world q = []"
  by (simp_all add: empty_world_def)

lemma empty_world_limit: "int_max_str_digits empty_world = 4300"
  by (simp add: empty_world_def)

lemma debug_no_handlers: "found_handlers L = [] \<Longrightarrow> debug L fmt as w = w"
  by (simp add: debug_def handle_def callHandlers_def lastResort_ignores_debug)

lemma small_1_2_3: "fits lim 1" "fits lim 2" "fits lim 3" "fits lim 5" "fits lim 6"
  by (simp_all add: small_fits str_nat.simps)

section \<open>The command line\<close>

lemma int_py_error: "int_py lim a = Inl e \<Longrightarrow> e = ValueError"
  by (cases e) (auto simp: int_py_def Let_def split: if_splits option.splits prod.splits)

lemma convert_all_bad:
  "a \<in> set as \<Longrightarrow> int_py lim a = Inl e \<Longrightarrow> convert_all lim as = Inl ValueError"
proof (induction as)
  case Nil
  then show ?case by simp
next
  case (Cons b bs)
  show ?case
  proof (cases "int_py lim b")
    case (Inl e')
    then show ?thesis using int_py_error [OF Inl] by simp
  next
    case (Inr i)
    then have "a \<in> set bs" using Cons.prems by auto
    then have "convert_all lim bs = Inl ValueError" using Cons by simp
    then show ?thesis using Inr by simp
  qed
qed

lemma main_bad_argument:
  "a \<in> set (drop 1 argv) \<Longrightarrow> int_py (int_max_str_digits w) a = Inl e \<Longrightarrow>
   main L0 argv w = (Inl ValueError, w)"
  using convert_all_bad [of a "drop 1 argv" "int_max_str_digits w" e] by (simp add: main_def)

lemma cli_logging_not_debug: "\<not> isEnabledFor (basicConfig INFO fresh_logging) DEBUG"
  by (simp add: isEnabledFor_def getEffectiveLevel_def basicConfig_def fresh_logging_def
      INFO_def DEBUG_def NOTSET_def)

lemma cli_add: "add (basicConfig INFO fresh_logging) xs w = (sum_list xs, w)"
  by (simp add: add_def Let_def debug_not_enabled [OF cli_logging_not_debug] sum_py_sum_list)

lemma cli_info:
  "fits (int_max_str_digits w) a \<Longrightarrow>
   info (basicConfig INFO fresh_logging) ''%d'' [PInt a] w =
   w\<lparr>stderr := stderr w @ decimal a @ [CHR 0x0A]\<rparr>"
  by (simp add: info_def handle_def callHandlers_def call_handler_def found_handlers_def
      isEnabledFor_def getEffectiveLevel_def basicConfig_def fresh_logging_def
      INFO_def NOTSET_def getMessage_def str_int_fits)

lemma main_good_arguments:
  "convert_all (int_max_str_digits w) (drop 1 argv) = Inr xs \<Longrightarrow>
   fits (int_max_str_digits w) (sum_list xs) \<Longrightarrow>
   main fresh_logging argv w = (Inr (), w\<lparr>stderr := stderr w @ decimal (sum_list xs) @ [CHR 0x0A]\<rparr>)"
  by (simp add: main_def cli_add cli_info)

lemma int_py_1: "int_py lim ''1'' = Inr 1"
  by (simp add: int_py_def is_space_def is_digit_def digit_val_def over_limit_def
      MAX_STR_DIGITS_THRESHOLD_def)

lemma int_py_2: "int_py lim ''2'' = Inr 2"
  by (simp add: int_py_def is_space_def is_digit_def digit_val_def over_limit_def
      MAX_STR_DIGITS_THRESHOLD_def)

lemma int_py_3: "int_py lim ''3'' = Inr 3"
  by (simp add: int_py_def is_space_def is_digit_def digit_val_def over_limit_def
      MAX_STR_DIGITS_THRESHOLD_def)

lemma int_py_x: "int_py lim ''x'' = Inl ValueError"
  by (simp add: int_py_def Let_def is_space_def is_digit_def digit_val_def)

lemma main_1_2_3:
  "main fresh_logging [prog, ''1'', ''2'', ''3''] w = (Inr (), w\<lparr>stderr := stderr w @ ''6'' @ [CHR 0x0A]\<rparr>)"
proof -
  have "convert_all (int_max_str_digits w) (drop 1 [prog, ''1'', ''2'', ''3'']) = Inr [1, 2, 3]"
    by (simp add: int_py_1 int_py_2 int_py_3)
  from main_good_arguments [OF this] show ?thesis
    by (simp add: small_1_2_3 decimal_def str_nat.simps digit_char_def)
qed

lemma big_integer_queue:
  "queue_messages (snd (add queue_fixture [big_integer] empty_world)) 0 = []"
  using queue_messages_add [OF queue_fixture_hears empty_world_sinks(2), of "[big_integer]"]
  by (simp add: empty_world_limit big_integer_over)


section \<open>The claims\<close>

text \<open>
  C1. For every finite sequence of integers, the empty one included, \<open>add\<close> returns
  the arithmetic sum of its arguments, whatever the logging state and the world it is
  called in; for the empty sequence the result is 0.
\<close>

theorem add_returns_sum: "fst (add L xs w) = sum_list xs \<and> fst (add L [] w) = 0"
  by (simp add: add_def Let_def sum_py_sum_list)

text \<open>
  C2, as stated: for every sequence of integers the two records render as the two
  texts. Not for every sequence. With the digit limit the interpreter starts with, an
  argument of 4301 digits makes the rendering of both records raise ValueError; the
  queue handler of the queue test catches it and puts nothing in the queue.
\<close>

theorem rendering_limit_counterexample:
  "big_integer = 10 ^ 4300
   \<and> int_max_str_digits empty_world = 4300
   \<and> fst (add queue_fixture [big_integer] empty_world) = big_integer
   \<and> getMessage (int_max_str_digits empty_world)
        (LogRecord DEBUG ''Calculating the sum of %s'' [PTuple (map PInt [big_integer])])
       = Inl ValueError
   \<and> getMessage (int_max_str_digits empty_world)
        (LogRecord DEBUG ''Result is %d'' [PInt (fst (add queue_fixture [big_integer] empty_world))])
       = Inl ValueError
   \<and> queue_messages (snd (add queue_fixture [big_integer] empty_world)) 0 = []"
proof (intro conjI)
  show "big_integer = 10 ^ 4300" by (rule big_integer_def)
  show "int_max_str_digits empty_world = 4300" by (rule empty_world_limit)
  show s: "fst (add queue_fixture [big_integer] empty_world) = big_integer"
    by (simp add: add_fst)
  show "getMessage (int_max_str_digits empty_world)
        (LogRecord DEBUG ''Calculating the sum of %s'' [PTuple (map PInt [big_integer])])
       = Inl ValueError"
    unfolding message_inputs by (simp add: empty_world_limit big_integer_over)
  show "getMessage (int_max_str_digits empty_world)
        (LogRecord DEBUG ''Result is %d'' [PInt (fst (add queue_fixture [big_integer] empty_world))])
       = Inl ValueError"
    unfolding s message_result by (simp add: empty_world_limit big_integer_over)
  show "queue_messages (snd (add queue_fixture [big_integer] empty_world)) 0 = []"
    by (rule big_integer_queue)
qed

text \<open>
  C2, amended. One call of \<open>add\<close> returns the sum and hands exactly two records of
  level DEBUG to the logger, as a side effect on the world, in this order; a logger
  that is not enabled for DEBUG drops both and the world stays as it was. When every
  argument is within the digit limit the first record renders as
  \<^verbatim>\<open>Calculating the sum of\<close> followed by the tuple text of the arguments, and when the
  sum is within the limit the second renders as \<^verbatim>\<open>Result is\<close> followed by the decimal
  text of the sum. The rendering of a record with an integer beyond the limit raises
  ValueError.
\<close>

theorem add_emits_two_records:
  "add L vargs w =
     (sum_list vargs,
      if isEnabledFor L DEBUG
      then handle L (LogRecord DEBUG ''Result is %d'' [PInt (sum_list vargs)])
             (handle L (LogRecord DEBUG ''Calculating the sum of %s'' [PTuple (map PInt vargs)]) w)
      else w)
   \<and> getMessage lim (LogRecord DEBUG ''Calculating the sum of %s'' [PTuple (map PInt vargs)])
       = (if list_all (fits lim) vargs
          then Inr (''Calculating the sum of '' @ tuple_repr (map decimal vargs))
          else Inl ValueError)
   \<and> getMessage lim (LogRecord DEBUG ''Result is %d'' [PInt (sum_list vargs)])
       = (if fits lim (sum_list vargs)
          then Inr (''Result is '' @ decimal (sum_list vargs))
          else Inl ValueError)"
proof (intro conjI)
  show "add L vargs w =
     (sum_list vargs,
      if isEnabledFor L DEBUG
      then handle L (LogRecord DEBUG ''Result is %d'' [PInt (sum_list vargs)])
             (handle L (LogRecord DEBUG ''Calculating the sum of %s'' [PTuple (map PInt vargs)]) w)
      else w)"
    by (simp add: add_def Let_def debug_def sum_py_sum_list)
qed (rule message_inputs, rule message_result)

text \<open>
  C3. For the arguments 1, 2, 3 \<open>add\<close> returns 6, and both log tests read back, in
  this order, \<^verbatim>\<open>Calculating the sum of (1, 2, 3)\<close> and \<^verbatim>\<open>Result is 6\<close>: as the two lines
  of the temporary file, and as the messages of the two records in the queue.
\<close>

theorem add_1_2_3:
  "fst (add L [1, 2, 3] w) = 6
   \<and> read_lines (snd (add stream_fixture [1, 2, 3] empty_world)) 0
       = [''Calculating the sum of (1, 2, 3)'', ''Result is 6'']
   \<and> queue_messages (snd (add queue_fixture [1, 2, 3] empty_world)) 0
       = [Inr ''Calculating the sum of (1, 2, 3)'', Inr ''Result is 6'']"
proof (intro conjI)
  show "fst (add L [1, 2, 3] w) = 6" by (simp add: add_fst)
next
  show "read_lines (snd (add stream_fixture [1, 2, 3] empty_world)) 0
       = [''Calculating the sum of (1, 2, 3)'', ''Result is 6'']"
    using read_lines_add [OF stream_fixture_hears empty_world_sinks(1), of "[1, 2, 3]"]
    by (simp add: small_1_2_3 tuple_repr_def decimal_def str_nat.simps digit_char_def)
next
  show "queue_messages (snd (add queue_fixture [1, 2, 3] empty_world)) 0
       = [Inr ''Calculating the sum of (1, 2, 3)'', Inr ''Result is 6'']"
    using queue_messages_add [OF queue_fixture_hears empty_world_sinks(2), of "[1, 2, 3]"]
    by (simp add: small_1_2_3 tuple_repr_def decimal_def str_nat.simps digit_char_def)
qed

text \<open>
  C4, as stated: run with the arguments 1 2 3 the script prints 6 on standard output.
  It does not. \<^verbatim>\<open>basicConfig\<close> is called without a stream, so the handler it makes writes
  to standard error, and the result is logged, not printed: standard output stays empty
  and the line \<^verbatim>\<open>6\<close> is on standard error.
\<close>

theorem cli_stdout_counterexample:
  "stdout (snd (main fresh_logging [''add.py'', ''1'', ''2'', ''3''] empty_world)) \<noteq> ''6'' @ [CHR 0x0A]
   \<and> stdout (snd (main fresh_logging [''add.py'', ''1'', ''2'', ''3''] empty_world)) = []
   \<and> stderr (snd (main fresh_logging [''add.py'', ''1'', ''2'', ''3''] empty_world)) = ''6'' @ [CHR 0x0A]"
  by (simp add: main_1_2_3 empty_world_def)

text \<open>
  C4, amended. Run in a fresh process with the arguments 1 2 3, the script writes the
  line \<^verbatim>\<open>6\<close> to standard error, leaves standard output as it was and exits with status
  0. Run with an argument that is not an integer literal, in any logging state, it
  exits with a status other than 0 and leaves standard output as it was.
\<close>

theorem cli_result_on_stderr:
  "main fresh_logging [prog, ''1'', ''2'', ''3''] w = (Inr (), w\<lparr>stderr := stderr w @ ''6'' @ [CHR 0x0A]\<rparr>)
   \<and> stdout (snd (main fresh_logging [prog, ''1'', ''2'', ''3''] w)) = stdout w
   \<and> exit_status (main fresh_logging [prog, ''1'', ''2'', ''3''] w) = 0
   \<and> ((\<exists>a \<in> set (drop 1 argv). \<exists>e. int_py (int_max_str_digits w') a = Inl e) \<longrightarrow>
        exit_status (main L0 argv w') \<noteq> 0 \<and> stdout (snd (main L0 argv w')) = stdout w')"
proof (intro conjI impI)
  show "main fresh_logging [prog, ''1'', ''2'', ''3''] w = (Inr (), w\<lparr>stderr := stderr w @ ''6'' @ [CHR 0x0A]\<rparr>)"
    by (rule main_1_2_3)
  show "stdout (snd (main fresh_logging [prog, ''1'', ''2'', ''3''] w)) = stdout w"
    by (simp add: main_1_2_3)
  show "exit_status (main fresh_logging [prog, ''1'', ''2'', ''3''] w) = 0"
    by (simp add: main_1_2_3 exit_status_def)
next
  assume "\<exists>a \<in> set (drop 1 argv). \<exists>e. int_py (int_max_str_digits w') a = Inl e"
  then obtain a e where "a \<in> set (drop 1 argv)" "int_py (int_max_str_digits w') a = Inl e" by blast
  then have m: "main L0 argv w' = (Inl ValueError, w')" by (rule main_bad_argument)
  show "exit_status (main L0 argv w') \<noteq> 0" by (simp add: m exit_status_def)
  show "stdout (snd (main L0 argv w')) = stdout w'" by (simp add: m)
qed

theorem cli_result_on_stderr_witness:
  "int_py (int_max_str_digits empty_world) ''x'' = Inl ValueError
   \<and> exit_status (main fresh_logging [''add.py'', ''1'', ''x''] empty_world) = 1
   \<and> stdout (snd (main fresh_logging [''add.py'', ''1'', ''x''] empty_world)) = []
   \<and> main fresh_logging [''add.py'', ''1'', ''2'', ''3''] empty_world
       = (Inr (), empty_world\<lparr>stderr := ''6'' @ [CHR 0x0A]\<rparr>)"
proof -
  have x: "\<exists>a \<in> set (drop 1 [''add.py'', ''1'', ''x'']). \<exists>e. int_py (int_max_str_digits empty_world) a = Inl e"
    using int_py_x by simp
  have s: "exit_status r \<noteq> 0 \<Longrightarrow> exit_status r = 1" for r
    by (simp add: exit_status_def split: sum.splits)
  show ?thesis
    using cli_result_on_stderr [of "''add.py''" empty_world "[''add.py'', ''1'', ''x'']"
        empty_world fresh_logging] x int_py_x s
    by (simp add: empty_world_def)
qed




text \<open>
  C6. For the single argument 5 the first record renders the arguments as a one-item
  tuple, with the trailing comma: the text is \<^verbatim>\<open>Calculating the sum of (5,)\<close>, in the
  queue and in the file, and it is not \<^verbatim>\<open>Calculating the sum of (5)\<close>.
\<close>

theorem single_argument_trailing_comma:
  "queue_messages (snd (add queue_fixture [5] empty_world)) 0 ! 0 = Inr ''Calculating the sum of (5,)''
   \<and> read_lines (snd (add stream_fixture [5] empty_world)) 0 ! 0 = ''Calculating the sum of (5,)''
   \<and> queue_messages (snd (add queue_fixture [5] empty_world)) 0 ! 0 \<noteq> Inr ''Calculating the sum of (5)''"
proof -
  have q: "queue_messages (snd (add queue_fixture [5] empty_world)) 0
        = [Inr ''Calculating the sum of (5,)'', Inr ''Result is 5'']"
    using queue_messages_add [OF queue_fixture_hears empty_world_sinks(2), of "[5]"]
    by (simp add: small_1_2_3 tuple_repr_def decimal_def str_nat.simps digit_char_def)
  have s: "read_lines (snd (add stream_fixture [5] empty_world)) 0
        = [''Calculating the sum of (5,)'', ''Result is 5'']"
    using read_lines_add [OF stream_fixture_hears empty_world_sinks(1), of "[5]"]
    by (simp add: small_1_2_3 tuple_repr_def decimal_def str_nat.simps digit_char_def)
  show ?thesis by (simp add: q s)
qed

text \<open>
  C7. With no handler on the module's logger and none on the root, \<open>add\<close> returns
  the sum and leaves the world untouched: nothing is written anywhere, standard error
  included, since the handler of last resort only takes records from WARNING up. The
  call has no exceptional outcome: an exception inside a handler would be caught by the
  handler, and there is no handler here. The sum is the one returned in any other
  logging state, with handlers attached or not.
\<close>

theorem add_without_sink:
  assumes "handlers (module_logger L) = []" and "handlers (root L) = []"
  shows "add L xs w = (sum_list xs, w) \<and> fst (add L' xs w') = fst (add L xs w)"
proof -
  have "found_handlers L = []" using assms by (simp add: found_handlers_def)
  then have "add L xs w = (sum_list xs, w)"
    by (simp add: add_def Let_def debug_no_handlers sum_py_sum_list)
  then show ?thesis by (simp add: add_fst)
qed

theorem add_without_sink_witness:
  "handlers (module_logger (setLevel DEBUG fresh_logging)) = []
   \<and> handlers (root (setLevel DEBUG fresh_logging)) = []
   \<and> isEnabledFor (setLevel DEBUG fresh_logging) DEBUG
   \<and> add (setLevel DEBUG fresh_logging) [1, 2, 3] empty_world = (6, empty_world)
   \<and> fst (add queue_fixture [1, 2, 3] empty_world) = fst (add (setLevel DEBUG fresh_logging) [1, 2, 3] empty_world)"
proof -
  have a: "handlers (module_logger (setLevel DEBUG fresh_logging)) = []"
    and b: "handlers (root (setLevel DEBUG fresh_logging)) = []"
    by (simp_all add: setLevel_def fresh_logging_def)
  have e: "isEnabledFor (setLevel DEBUG fresh_logging) DEBUG"
    by (simp add: isEnabledFor_def getEffectiveLevel_def setLevel_def fresh_logging_def DEBUG_def)
  show ?thesis
    using add_without_sink [OF a b, of "[1, 2, 3]" empty_world queue_fixture empty_world] a b e
    by simp
qed

text \<open>
  C8. If an argument after the script's name is not an integer literal, the list of
  converted arguments is never built: the conversion raises ValueError, the script
  ends there, and the world is the one it started in. This holds in every logging
  state, also one in which the records of \<open>add\<close> would reach a handler: \<open>add\<close>
  was not called and no record was made.
\<close>

theorem bad_argument_stops_before_add:
  assumes "a \<in> set (drop 1 argv)" and "int_py (int_max_str_digits w) a = Inl e"
  shows "convert_all (int_max_str_digits w) (drop 1 argv) = Inl ValueError
         \<and> main L0 argv w = (Inl ValueError, w)"
  using convert_all_bad [OF assms] main_bad_argument [OF assms] by simp

theorem bad_argument_stops_before_add_witness:
  "''x'' \<in> set (drop 1 [''add.py'', ''1'', ''x''])
   \<and> int_py (int_max_str_digits empty_world) ''x'' = Inl ValueError
   \<and> isEnabledFor (basicConfig INFO queue_fixture) DEBUG
   \<and> convert_all (int_max_str_digits empty_world) (drop 1 [''add.py'', ''1'', ''x'']) = Inl ValueError
   \<and> main queue_fixture [''add.py'', ''1'', ''x''] empty_world = (Inl ValueError, empty_world)"
proof -
  have m: "''x'' \<in> set (drop 1 [''add.py'', ''1'', ''x''])" by simp
  have e: "isEnabledFor (basicConfig INFO queue_fixture) DEBUG"
    by (simp add: isEnabledFor_def getEffectiveLevel_def basicConfig_def queue_fixture_def
        addHandler_def setLevel_def fresh_logging_def DEBUG_def)
  show ?thesis
    using bad_argument_stops_before_add [OF m int_py_x, of empty_world queue_fixture] m e
      int_py_x [of "int_max_str_digits empty_world"]
    by simp
qed




text \<open>
  C10. For two argument sequences that are permutations of each other \<open>add\<close>
  returns the same sum, in any logging states and worlds, and so the second record
  renders the same; only the tuple in the first record follows the order given.
\<close>

theorem add_permutation_invariant:
  assumes "mset xs = mset ys"
  shows "fst (add L xs w) = fst (add L' ys w')
         \<and> getMessage lim (LogRecord DEBUG ''Result is %d'' [PInt (fst (add L xs w))])
           = getMessage lim (LogRecord DEBUG ''Result is %d'' [PInt (fst (add L' ys w'))])"
proof -
  have "sum_list xs = sum_list ys"
    using assms by (metis sum_mset_sum_list)
  then show ?thesis by (simp add: add_fst)
qed

theorem add_permutation_invariant_witness:
  "mset [1, 2, 3 :: int] = mset [3, 1, 2]
   \<and> fst (add queue_fixture [1, 2, 3] empty_world) = fst (add stream_fixture [3, 1, 2] empty_world)
   \<and> fst (add queue_fixture [1, 2, 3] empty_world) = 6"
proof -
  have m: "mset [1, 2, 3 :: int] = mset [3, 1, 2]" by simp
  show ?thesis
    using add_permutation_invariant [OF m, of queue_fixture empty_world stream_fixture empty_world] m
    by (simp add: add_fst)
qed

end
